theory Spec2Isabelle
  imports Main "HOL-Library.Sublist"
begin

section \<open>Text primitives of the Python runtime used by the converter\<close>

text \<open>
  A Python \<open>str\<close> is modelled as a \<^typ>\<open>string\<close>: a list of characters with code points
  below 256. On that range \<open>str.strip()\<close> removes the characters for which \<open>str.isspace\<close>
  holds (code points 9 to 13, 28 to 32, 133 and 160), and \<open>re.IGNORECASE\<close> identifies
  exactly the ASCII letters with their other case.
\<close>

definition isspace :: "char \<Rightarrow> bool" where
  "isspace c = ((of_char c :: nat) \<in> {9, 10, 11, 12, 13, 28, 29, 30, 31, 32, 133, 160})"

definition strip :: "string \<Rightarrow> string" where
  "strip s = rev (dropWhile isspace (rev (dropWhile isspace s)))"

definition lower_char :: "char \<Rightarrow> char" where
  "lower_char c = (let n = (of_char c :: nat) in
                     if 65 \<le> n \<and> n \<le> 90 then char_of (n + 32) else c)"

text \<open>A literal pattern matches at the start of the subject, ignoring case.\<close>

fun match_here :: "string \<Rightarrow> string \<Rightarrow> bool" where
  "match_here [] s = True"
| "match_here (p # ps) [] = False"
| "match_here (p # ps) (c # cs) = (lower_char p = lower_char c \<and> match_here ps cs)"

text \<open>\<open>re.search(pattern, s, re.IGNORECASE)\<close> for a literal pattern: scan every start position.\<close>

fun re_search :: "string \<Rightarrow> string \<Rightarrow> bool" where
  "re_search pat [] = match_here pat []"
| "re_search pat (c # cs) = (match_here pat (c # cs) \<or> re_search pat cs)"

section \<open>The data model\<close>

datatype role = PROMPTER | CHAT

type_synonym message = "role \<times> string"

text \<open>
  The fields of \<open>ConversationParser\<close>: \<open>messages\<close>, \<open>_current_role\<close> and \<open>_buffer\<close>.
  The only values ever stored in \<open>_current_role\<close> are \<open>None\<close>, \<open>"PROMPTER"\<close> and \<open>"CHAT"\<close>,
  so its truth value is that of being set.
\<close>

record parser =
  messages :: "message list"
  current_role :: "role option"
  buffer :: "string list"

definition init :: parser where
  "init = \<lparr>messages = [], current_role = None, buffer = []\<rparr>"

text \<open>
  The attribute list that \<open>HTMLParser\<close> hands to \<open>handle_starttag\<close>: pairs of a name and a
  value, the value being \<open>None\<close> for an attribute written without one.
\<close>

type_synonym attrs = "(string \<times> string option) list"

datatype error = TypeError | OSError | UnicodeDecodeError

text \<open>
  The callbacks \<open>HTMLParser\<close> makes while it scans a document, in document order, for the
  three handlers the class overrides. A self-closing tag arrives as a start tag followed
  by an end tag; tag and attribute names arrive in lower case; comments, declarations and
  processing instructions go to handlers that the class inherits and that do nothing.
\<close>

datatype event = StartTag string attrs | Data string | EndTag string

section \<open>ConversationParser\<close>

definition close_message :: "parser \<Rightarrow> parser" where
  "close_message s =
     (let msgs =
        (case current_role s of
           None \<Rightarrow> messages s
         | Some r \<Rightarrow>
             if buffer s \<noteq> [] then
               (let text = strip (concat (buffer s)) in
                  if text \<noteq> [] then messages s @ [(r, text)] else messages s)
             else messages s)
      in s\<lparr>messages := msgs, buffer := [], current_role := None\<rparr>)"

text \<open>The dict comprehension over the attribute pairs: a later pair overrides an earlier one.\<close>

definition attr_dict :: "attrs \<Rightarrow> (string \<rightharpoonup> string option)" where
  "attr_dict as = map_of (rev as)"

text \<open>\<open>attr_dict.get("class", "")\<close>: the result \<open>None\<close> is Python's \<open>None\<close>.\<close>

definition get_class :: "attrs \<Rightarrow> string option" where
  "get_class as = (case attr_dict as ''class'' of None \<Rightarrow> Some [] | Some v \<Rightarrow> v)"

text \<open>
  The two \<open>re.search\<close> calls of \<open>handle_starttag\<close>. \<open>re.search\<close> raises \<open>TypeError\<close> when
  its subject is \<open>None\<close>.
\<close>

definition detect_role :: "string option \<Rightarrow> error + role option" where
  "detect_role classes =
     (case classes of
        None \<Rightarrow> Inl TypeError
      | Some cls \<Rightarrow>
          Inr (if re_search ''user'' cls then Some PROMPTER
               else if re_search ''assistant'' cls \<or> re_search ''bot'' cls
                       \<or> re_search ''chatgpt'' cls then Some CHAT
               else None))"

definition handle_starttag :: "string \<Rightarrow> attrs \<Rightarrow> parser \<Rightarrow> error + parser" where
  "handle_starttag tag as s =
     (case detect_role (get_class as) of
        Inl e \<Rightarrow> Inl e
      | Inr None \<Rightarrow> Inr s
      | Inr (Some r) \<Rightarrow> Inr ((close_message s)\<lparr>current_role := Some r\<rparr>))"

definition handle_data :: "string \<Rightarrow> parser \<Rightarrow> parser" where
  "handle_data d s =
     (if current_role s \<noteq> None then s\<lparr>buffer := buffer s @ [d]\<rparr> else s)"

definition handle_endtag :: "string \<Rightarrow> parser \<Rightarrow> parser" where
  "handle_endtag tag s =
     (if current_role s \<noteq> None \<and> tag \<in> {''div'', ''p'', ''span''}
      then close_message s else s)"

fun handle :: "event \<Rightarrow> parser \<Rightarrow> error + parser" where
  "handle (StartTag tag as) s = handle_starttag tag as s"
| "handle (Data d) s = Inr (handle_data d s)"
| "handle (EndTag tag) s = Inr (handle_endtag tag s)"

text \<open>
  \<open>parser.feed(...)\<close> followed by \<open>parser.close()\<close>: the callbacks run in document order
  and the first exception ends the run.
\<close>

fun feed :: "event list \<Rightarrow> parser \<Rightarrow> error + parser" where
  "feed [] s = Inr s"
| "feed (e # es) s = (case handle e s of Inl err \<Rightarrow> Inl err | Inr s' \<Rightarrow> feed es s')"

text \<open>
  The body of \<open>convert_html_to_markdown\<close> after the file has been read and scanned into
  events: a fresh parser, the run, and \<open>parser.messages\<close>.
\<close>

definition parse_events :: "event list \<Rightarrow> error + message list" where
  "parse_events es = (case feed es init of Inl err \<Rightarrow> Inl err | Inr s \<Rightarrow> Inr (messages s))"

section \<open>The serializer and the command line\<close>

text \<open>
  The file system as the program sees it: what each path holds, whether \<open>open(path, "w")\<close>
  succeeds there (the directory above exists and may be written), and the text printed so
  far. A regular file that cannot be read as UTF-8 text carries the exception its reading
  raises.
\<close>

datatype node = File string | Unreadable error | Directory

record world =
  files :: "string \<rightharpoonup> node"
  writable :: "string \<Rightarrow> bool"
  stdout :: string

definition isfile :: "world \<Rightarrow> string \<Rightarrow> bool" where
  "isfile w p = (case files w p of
                   Some (File text) \<Rightarrow> True
                 | Some (Unreadable e) \<Rightarrow> True
                 | Some Directory \<Rightarrow> False
                 | None \<Rightarrow> False)"

text \<open>\<open>open(path, "r", encoding="utf-8")\<close> and \<open>f.read()\<close>.\<close>

definition read_text :: "world \<Rightarrow> string \<Rightarrow> error + string" where
  "read_text w p = (case files w p of
                      Some (File text) \<Rightarrow> Inr text
                    | Some (Unreadable e) \<Rightarrow> Inl e
                    | Some Directory \<Rightarrow> Inl OSError
                    | None \<Rightarrow> Inl OSError)"

text \<open>
  \<open>scan\<close> stands for the scanner of \<open>html.parser.HTMLParser\<close>: the callbacks it makes, in
  order, for a document.
\<close>

definition convert_html_to_markdown ::
  "(string \<Rightarrow> event list) \<Rightarrow> string \<Rightarrow> world \<Rightarrow> error + message list" where
  "convert_html_to_markdown scan path w =
     (case read_text w path of
        Inl err \<Rightarrow> Inl err
      | Inr text \<Rightarrow> parse_events (scan text))"

fun role_label :: "role \<Rightarrow> string" where
  "role_label PROMPTER = ''PROMPTER''"
| "role_label CHAT = ''CHAT''"

text \<open>The loop of \<open>write_markdown\<close>; the second argument is what the file holds so far.\<close>

fun write_all :: "message list \<Rightarrow> string \<Rightarrow> string" where
  "write_all [] f = f"
| "write_all ((role, text) # ms) f =
     write_all ms (f @ role_label role @ '':'' @ [CHR 0x0A] @ text @ [CHR 0x0A, CHR 0x0A])"

text \<open>Opening with mode \<open>"w"\<close> creates the file or truncates it; a directory cannot be opened.\<close>

definition write_markdown :: "message list \<Rightarrow> string \<Rightarrow> world \<Rightarrow> error + world" where
  "write_markdown msgs path w =
     (if files w path = Some Directory \<or> \<not> writable w path then Inl OSError
      else Inr (w\<lparr>files := (files w)(path \<mapsto> File (write_all msgs []))\<rparr>))"

text \<open>The namespace that \<open>parse_arguments\<close> returns.\<close>

record args =
  input_file :: string
  output_file :: "string option"

text \<open>\<open>str(n)\<close> for a length.\<close>

fun str_nat :: "nat \<Rightarrow> string" where
  "str_nat n = (if n < 10 then [char_of (48 + n)]
                else str_nat (n div 10) @ [char_of (48 + n mod 10)])"

declare str_nat.simps [simp del]

text \<open>
  \<open>args.output_file or os.path.splitext(args.input_file)[0] + ".md"\<close>, with
  \<open>splitext_root p\<close> standing for \<open>os.path.splitext(p)[0]\<close>.
\<close>

definition output_path :: "(string \<Rightarrow> string) \<Rightarrow> args \<Rightarrow> string" where
  "output_path splitext_root a =
     (case output_file a of
        None \<Rightarrow> splitext_root (input_file a) @ ''.md''
      | Some p \<Rightarrow> if p \<noteq> [] then p else splitext_root (input_file a) @ ''.md'')"

text \<open>
  How the process ends: \<open>main\<close> returns, \<open>SystemExit\<close> is raised with a message, or another
  exception escapes. The interpreter exits with status 0 in the first case and 1 in the
  other two.
\<close>

datatype outcome = Returned | SystemExit string | Uncaught error

fun exit_status :: "outcome \<Rightarrow> nat" where
  "exit_status Returned = 0"
| "exit_status (SystemExit msg) = 1"
| "exit_status (Uncaught e) = 1"

definition main ::
  "(string \<Rightarrow> event list) \<Rightarrow> (string \<Rightarrow> string) \<Rightarrow> args \<Rightarrow> world \<Rightarrow> outcome \<times> world" where
  "main scan splitext_root a w =
     (if \<not> isfile w (input_file a) then (SystemExit ''Input file not found'', w)
      else
        (let output = output_path splitext_root a in
           case convert_html_to_markdown scan (input_file a) w of
             Inl err \<Rightarrow> (Uncaught err, w)
           | Inr msgs \<Rightarrow>
               (case write_markdown msgs output w of
                  Inl err \<Rightarrow> (Uncaught err, w)
                | Inr w' \<Rightarrow>
                    (Returned,
                     w'\<lparr>stdout := stdout w' @ ''Wrote '' @ str_nat (length msgs)
                                   @ '' messages to '' @ output @ [CHR 0x0A]\<rparr>))))"

text \<open>An event that is not a role marker: text, an end tag, or a start tag with no role signal.\<close>

definition no_signal :: "event \<Rightarrow> bool" where
  "no_signal e = (case e of
                    StartTag tag as \<Rightarrow> detect_role (get_class as) = Inr None
                  | Data d \<Rightarrow> True
                  | EndTag tag \<Rightarrow> True)"

section \<open>Facts about the text primitives\<close>

lemma match_here_iff_prefix:
  "match_here pat s \<longleftrightarrow> prefix (map lower_char pat) (map lower_char s)"
  by (induction pat s rule: match_here.induct) simp_all

lemma re_search_iff_sublist:
  "re_search pat s \<longleftrightarrow> sublist (map lower_char pat) (map lower_char s)"
  by (induction s) (simp_all add: match_here_iff_prefix sublist_Cons_right)

lemma lower_user: "map lower_char ''user'' = ''user''"
  by code_simp

lemma lower_assistant: "map lower_char ''assistant'' = ''assistant''"
  by code_simp

lemma lower_bot: "map lower_char ''bot'' = ''bot''"
  by code_simp

lemma lower_chatgpt: "map lower_char ''chatgpt'' = ''chatgpt''"
  by code_simp

lemma all_dropWhile_iff:
  "(\<forall>x\<in>set (dropWhile P xs). P x) \<longleftrightarrow> (\<forall>x\<in>set xs. P x)"
  by (induction xs) auto

lemma strip_Nil_iff: "strip t = [] \<longleftrightarrow> (\<forall>c\<in>set t. isspace c)"
  by (simp add: strip_def dropWhile_eq_Nil_conv all_dropWhile_iff)

lemma strip_is_prefix: "\<exists>zs. dropWhile isspace t = strip t @ zs"
proof -
  let ?d = "dropWhile isspace t"
  have "strip t @ rev (takeWhile isspace (rev ?d))
          = rev (takeWhile isspace (rev ?d) @ dropWhile isspace (rev ?d))"
    unfolding strip_def by (simp only: rev_append)
  also have "\<dots> = ?d"
    by (simp only: takeWhile_dropWhile_id rev_rev_ident)
  finally show ?thesis by metis
qed

lemma hd_strip:
  assumes "strip t \<noteq> []"
  shows "\<not> isspace (hd (strip t))"
proof -
  obtain zs where d: "dropWhile isspace t = strip t @ zs"
    using strip_is_prefix by blast
  then have "dropWhile isspace t \<noteq> []" using assms by simp
  then have "\<not> isspace (hd (dropWhile isspace t))" by (rule hd_dropWhile)
  then show ?thesis using d assms by simp
qed

lemma last_strip:
  assumes "strip t \<noteq> []"
  shows "\<not> isspace (last (strip t))"
proof -
  let ?r = "dropWhile isspace (rev (dropWhile isspace t))"
  have r: "?r \<noteq> []" using assms by (simp add: strip_def)
  then have "\<not> isspace (hd ?r)" by (rule hd_dropWhile)
  then show ?thesis using r by (simp add: strip_def last_rev)
qed

lemma strip_fixed:
  assumes "t \<noteq> []" "\<not> isspace (hd t)" "\<not> isspace (last t)"
  shows "strip t = t"
proof -
  have 1: "dropWhile isspace t = t" using assms by (simp add: dropWhile_eq_self_iff)
  have 2: "dropWhile isspace (rev t) = rev t"
    using assms by (simp add: dropWhile_eq_self_iff hd_rev)
  show ?thesis by (simp add: strip_def 1 2)
qed

lemma strip_idem: "strip (strip t) = strip t"
proof (cases "strip t = []")
  case True
  moreover have "strip [] = []" by (simp add: strip_def)
  ultimately show ?thesis by simp
next
  case False then show ?thesis by (intro strip_fixed hd_strip last_strip)
qed

section \<open>Facts about the run\<close>

lemma feed_append:
  "feed (xs @ ys) s = (case feed xs s of Inl err \<Rightarrow> Inl err | Inr s' \<Rightarrow> feed ys s')"
  by (induction xs arbitrary: s) (auto split: sum.splits)

lemma strip_empty: "strip [] = []"
  by (simp add: strip_def)

lemma close_message_messages:
  "messages (close_message s) =
     (case current_role s of
        None \<Rightarrow> messages s
      | Some r \<Rightarrow> if strip (concat (buffer s)) \<noteq> []
                  then messages s @ [(r, strip (concat (buffer s)))]
                  else messages s)"
proof -
  have "buffer s = [] \<Longrightarrow> strip (concat (buffer s)) = []"
    by (simp add: strip_empty)
  then show ?thesis
    by (auto simp: close_message_def Let_def split: option.splits)
qed

lemma close_message_trimmed:
  assumes "\<forall>m\<in>set (messages s). snd m \<noteq> [] \<and> strip (snd m) = snd m"
  shows "\<forall>m\<in>set (messages (close_message s)). snd m \<noteq> [] \<and> strip (snd m) = snd m"
  using assms by (auto simp: close_message_messages strip_idem split: option.splits)

lemma handle_trimmed:
  assumes "handle e s = Inr s'"
    and "\<forall>m\<in>set (messages s). snd m \<noteq> [] \<and> strip (snd m) = snd m"
  shows "\<forall>m\<in>set (messages s'). snd m \<noteq> [] \<and> strip (snd m) = snd m"
proof (cases e)
  case (StartTag tag as)
  with assms(1) have "s' = s \<or> (\<exists>r. s' = (close_message s)\<lparr>current_role := Some r\<rparr>)"
    by (auto simp: handle_starttag_def split: sum.splits option.splits)
  then show ?thesis using assms(2) close_message_trimmed [OF assms(2)] by auto
next
  case (Data d)
  with assms(1) have "messages s' = messages s"
    by (auto simp: handle_data_def split: if_splits)
  then show ?thesis using assms(2) by simp
next
  case (EndTag tag)
  with assms(1) have "s' = s \<or> s' = close_message s"
    by (auto simp: handle_endtag_def)
  then show ?thesis using assms(2) close_message_trimmed [OF assms(2)] by auto
qed

lemma feed_trimmed:
  "feed es s = Inr s' \<Longrightarrow>
   \<forall>m\<in>set (messages s). snd m \<noteq> [] \<and> strip (snd m) = snd m \<Longrightarrow>
   \<forall>m\<in>set (messages s'). snd m \<noteq> [] \<and> strip (snd m) = snd m"
proof (induction es arbitrary: s)
  case Nil
  then show ?case by simp
next
  case (Cons e es)
  from Cons.prems(1) obtain s1 where h: "handle e s = Inr s1" and f: "feed es s1 = Inr s'"
    by (auto split: sum.splits)
  from handle_trimmed [OF h Cons.prems(2)] Cons.IH [OF f] show ?case by blast
qed

lemma blank_buffer_closes_silently:
  assumes "\<forall>c\<in>set (concat (buffer s)). isspace c"
  shows "messages (close_message s) = messages s"
proof -
  have "strip (concat (buffer s)) = []"
    using assms by (simp only: strip_Nil_iff)
  then show ?thesis by (simp add: close_message_messages split: option.splits)
qed

lemma handle_no_signal:
  assumes "no_signal e" and "current_role s = None"
  shows "handle e s = Inr s"
  using assms
  by (cases e) (simp_all add: no_signal_def handle_starttag_def handle_data_def handle_endtag_def)

lemma feed_no_signal:
  assumes "\<forall>e\<in>set pre. no_signal e" and "current_role s = None"
  shows "feed pre s = Inr s"
  using assms by (induction pre) (simp_all add: handle_no_signal)

lemma write_all_acc:
  "write_all ms f =
     f @ concat (map (\<lambda>(r, t). role_label r @ '':'' @ [CHR 0x0A] @ t @ [CHR 0x0A, CHR 0x0A]) ms)"
  by (induction ms f rule: write_all.induct) simp_all

lemma handle_returns:
  assumes "case e of StartTag tag as \<Rightarrow> get_class as \<noteq> None | Data d \<Rightarrow> True | EndTag tag \<Rightarrow> True"
  shows "\<exists>s'. handle e s = Inr s'"
  using assms
  by (cases e) (auto simp: handle_starttag_def detect_role_def split: option.splits)

lemma feed_returns:
  assumes "\<forall>e\<in>set es. case e of StartTag tag as \<Rightarrow> get_class as \<noteq> None
                                 | Data d \<Rightarrow> True | EndTag tag \<Rightarrow> True"
  shows "\<exists>s'. feed es s = Inr s'"
  using assms
proof (induction es arbitrary: s)
  case Nil
  then show ?case by simp
next
  case (Cons e es)
  then obtain s1 where "handle e s = Inr s1"
    using handle_returns [of e s] by auto
  with Cons show ?case by simp
qed

section \<open>Closing a message at an end tag\<close>

text \<open>
  C3. At an end tag named div, p or span met while a role is active, the message is
  closed: the buffered fragments are joined in order and trimmed, the pair of the role and
  that text is appended to the messages exactly when the text is not empty, and the role
  and the buffer are cleared in either case. The state records nothing about the tag that
  set the role, so every such end tag closes.
\<close>

theorem handle_endtag_closes:
  assumes "current_role s = Some r" and "tag \<in> {''div'', ''p'', ''span''}"
  shows "handle_endtag tag s =
           \<lparr>messages = (if strip (concat (buffer s)) \<noteq> []
                        then messages s @ [(r, strip (concat (buffer s)))]
                        else messages s),
            current_role = None,
            buffer = []\<rparr>"
proof -
  have "strip [] = []" by (simp add: strip_def)
  then have "buffer s = [] \<Longrightarrow> strip (concat (buffer s)) = []" by simp
  then show ?thesis
    using assms by (auto simp: handle_endtag_def close_message_def Let_def)
qed

theorem handle_endtag_closes_witness:
  "current_role \<lparr>messages = [], current_role = Some PROMPTER, buffer = ['' Hi'', '' there '']\<rparr> = Some PROMPTER
   \<and> ''span'' \<in> {''div'', ''p'', ''span''}
   \<and> handle_endtag ''span'' \<lparr>messages = [], current_role = Some PROMPTER, buffer = ['' Hi'', '' there '']\<rparr>
       = \<lparr>messages = [(PROMPTER, ''Hi there'')], current_role = None, buffer = []\<rparr>"
proof -
  let ?s = "\<lparr>messages = [], current_role = Some PROMPTER, buffer = ['' Hi'', '' there '']\<rparr>"
  have a: "current_role ?s = Some PROMPTER" by simp
  have b: "''span'' \<in> {''div'', ''p'', ''span''}" by simp
  have c: "strip (concat (buffer ?s)) = ''Hi there''" by code_simp
  show ?thesis
    using a b handle_endtag_closes [OF a b] unfolding c by simp
qed

section \<open>Role detection at a start tag\<close>

text \<open>
  What the handler does at a start tag whose class lookup yields a string (the value of
  the class attribute, or the empty string when there is none): the role is found by
  searching the lower-cased class string, PROMPTER if it contains user; otherwise CHAT if
  it contains assistant, bot or chatgpt; otherwise the parser is unchanged. So a class
  containing both user and assistant gives PROMPTER. When a role is found, the open
  message is flushed under the role that was active, and the new role starts with an
  empty buffer.
\<close>

theorem handle_starttag_role_detection:
  assumes "get_class as = Some cls"
  shows "handle_starttag tag as s = Inr
           (if sublist ''user'' (map lower_char cls) then
              \<lparr>messages = messages (close_message s), current_role = Some PROMPTER, buffer = []\<rparr>
            else if sublist ''assistant'' (map lower_char cls)
                    \<or> sublist ''bot'' (map lower_char cls)
                    \<or> sublist ''chatgpt'' (map lower_char cls) then
              \<lparr>messages = messages (close_message s), current_role = Some CHAT, buffer = []\<rparr>
            else s)
         \<and> messages (close_message s) =
             (case current_role s of
                None \<Rightarrow> messages s
              | Some r \<Rightarrow> if strip (concat (buffer s)) \<noteq> []
                          then messages s @ [(r, strip (concat (buffer s)))]
                          else messages s)"
proof -
  have u: "re_search ''user'' cls \<longleftrightarrow> sublist ''user'' (map lower_char cls)"
    using re_search_iff_sublist [of "''user''" cls] by (simp only: lower_user)
  have a: "re_search ''assistant'' cls \<longleftrightarrow> sublist ''assistant'' (map lower_char cls)"
    using re_search_iff_sublist [of "''assistant''" cls] by (simp only: lower_assistant)
  have b: "re_search ''bot'' cls \<longleftrightarrow> sublist ''bot'' (map lower_char cls)"
    using re_search_iff_sublist [of "''bot''" cls] by (simp only: lower_bot)
  have c: "re_search ''chatgpt'' cls \<longleftrightarrow> sublist ''chatgpt'' (map lower_char cls)"
    using re_search_iff_sublist [of "''chatgpt''" cls] by (simp only: lower_chatgpt)
  have d: "detect_role (Some cls) = Inr
             (if sublist ''user'' (map lower_char cls) then Some PROMPTER
              else if sublist ''assistant'' (map lower_char cls)
                      \<or> sublist ''bot'' (map lower_char cls)
                      \<or> sublist ''chatgpt'' (map lower_char cls) then Some CHAT
              else None)"
    by (simp add: detect_role_def u a b c)
  have cm: "close_message s = \<lparr>messages = messages (close_message s), current_role = None, buffer = []\<rparr>"
    by (simp add: close_message_def Let_def)
  have first: "handle_starttag tag as s = Inr
           (if sublist ''user'' (map lower_char cls) then
              \<lparr>messages = messages (close_message s), current_role = Some PROMPTER, buffer = []\<rparr>
            else if sublist ''assistant'' (map lower_char cls)
                    \<or> sublist ''bot'' (map lower_char cls)
                    \<or> sublist ''chatgpt'' (map lower_char cls) then
              \<lparr>messages = messages (close_message s), current_role = Some CHAT, buffer = []\<rparr>
            else s)"
    unfolding handle_starttag_def assms d
    by (simp add: close_message_def Let_def)
  have "strip [] = []" by (simp add: strip_def)
  then have e: "buffer s = [] \<Longrightarrow> strip (concat (buffer s)) = []" by simp
  have second: "messages (close_message s) =
             (case current_role s of
                None \<Rightarrow> messages s
              | Some r \<Rightarrow> if strip (concat (buffer s)) \<noteq> []
                          then messages s @ [(r, strip (concat (buffer s)))]
                          else messages s)"
    using e by (auto simp: close_message_def Let_def split: option.splits)
  from first second show ?thesis by (rule conjI)
qed

theorem handle_starttag_role_detection_witness:
  "get_class [(''class'', Some ''User-Assistant'')] = Some ''User-Assistant''
   \<and> handle_starttag ''div'' [(''class'', Some ''User-Assistant'')]
         \<lparr>messages = [], current_role = Some CHAT, buffer = [''ok '']\<rparr>
       = Inr \<lparr>messages = [(CHAT, ''ok'')], current_role = Some PROMPTER, buffer = []\<rparr>"
proof -
  let ?s = "\<lparr>messages = [], current_role = Some CHAT, buffer = [''ok '']\<rparr>"
  have g: "get_class [(''class'', Some ''User-Assistant'')] = Some ''User-Assistant''"
    by code_simp
  have u: "sublist ''user'' (map lower_char ''User-Assistant'')"
    by code_simp
  have m: "messages (close_message ?s) = [(CHAT, ''ok'')]"
    by code_simp
  have "handle_starttag ''div'' [(''class'', Some ''User-Assistant'')] ?s
          = Inr \<lparr>messages = messages (close_message ?s), current_role = Some PROMPTER,
                 buffer = []\<rparr>"
    using handle_starttag_role_detection [OF g, of "''div''" ?s] u by (simp only: if_True)
  with g m show ?thesis by (simp only:)
qed

text \<open>
  C4. Role detection is claimed for every start tag, with no role signal when the class
  holds none of the four words. At a start tag whose class attribute is written without a
  value the class lookup yields None, and the handler does not report the absence of a
  signal: \<open>re.search\<close> raises \<open>TypeError\<close>, with the open message neither flushed nor
  kept.
\<close>

theorem handle_starttag_valueless_class_raises:
  "get_class [(''class'', None)] = None
   \<and> handle_starttag ''div'' [(''class'', None)]
         \<lparr>messages = [], current_role = Some CHAT, buffer = [''ok '']\<rparr>
       = Inl TypeError"
  by code_simp

section \<open>End tags that change nothing\<close>

text \<open>
  C10. An end tag whose name is not div, p or span, and any end tag met while no role is
  active, leaves the parser exactly as it was: messages, current role and buffer.
\<close>

theorem handle_endtag_frame:
  "tag \<notin> {''div'', ''p'', ''span''} \<or> current_role s = None \<Longrightarrow> handle_endtag tag s = s"
  by (auto simp: handle_endtag_def)

theorem handle_endtag_frame_witness:
  "''li'' \<notin> {''div'', ''p'', ''span''}
   \<and> current_role \<lparr>messages = [(CHAT, ''x'')], current_role = None, buffer = []\<rparr> = None
   \<and> handle_endtag ''li'' \<lparr>messages = [], current_role = Some CHAT, buffer = [''a'']\<rparr>
       = \<lparr>messages = [], current_role = Some CHAT, buffer = [''a'']\<rparr>
   \<and> handle_endtag ''div'' \<lparr>messages = [(CHAT, ''x'')], current_role = None, buffer = []\<rparr>
       = \<lparr>messages = [(CHAT, ''x'')], current_role = None, buffer = []\<rparr>"
proof -
  have a: "''li'' \<notin> {''div'', ''p'', ''span''}" by simp
  have b: "current_role \<lparr>messages = [(CHAT, ''x'')], current_role = None, buffer = []\<rparr> = None"
    by simp
  show ?thesis
    using a handle_endtag_frame [where tag = "''li''", OF disjI1, OF a]
      handle_endtag_frame [where tag = "''div''", OF disjI2, OF b]
    by simp
qed

section \<open>Every emitted message has text\<close>

text \<open>
  C5. Every message in the returned sequence has a text that is not empty and is its own
  trimmed form. When the buffered text is whitespace only (or there is none), a div, p or
  span end tag and a role-marked start tag both leave the messages as they were: the first
  role marker yields no message.
\<close>

theorem emitted_text_nonempty_trimmed:
  "(parse_events es = Inr msgs \<longrightarrow>
      (\<forall>m\<in>set msgs. snd m \<noteq> [] \<and> strip (snd m) = snd m))
   \<and> ((\<forall>c\<in>set (concat (buffer s)). isspace c) \<longrightarrow>
        messages (handle_endtag tag s) = messages s
        \<and> (\<forall>s'. handle_starttag tag as s = Inr s' \<longrightarrow> messages s' = messages s))"
proof (intro conjI impI allI)
  assume "parse_events es = Inr msgs"
  then obtain s' where f: "feed es init = Inr s'" and m: "msgs = messages s'"
    by (auto simp: parse_events_def split: sum.splits)
  have "\<forall>m\<in>set (messages init). snd m \<noteq> [] \<and> strip (snd m) = snd m"
    by (simp add: init_def)
  from feed_trimmed [OF f this] m
  show "\<forall>m\<in>set msgs. snd m \<noteq> [] \<and> strip (snd m) = snd m" by simp
next
  assume b: "\<forall>c\<in>set (concat (buffer s)). isspace c"
  show "messages (handle_endtag tag s) = messages s"
    using blank_buffer_closes_silently [OF b] by (simp add: handle_endtag_def)
next
  fix s'
  assume b: "\<forall>c\<in>set (concat (buffer s)). isspace c"
    and h: "handle_starttag tag as s = Inr s'"
  from h have "s' = s \<or> (\<exists>r. s' = (close_message s)\<lparr>current_role := Some r\<rparr>)"
    by (auto simp: handle_starttag_def split: sum.splits option.splits)
  then show "messages s' = messages s"
    using blank_buffer_closes_silently [OF b] by auto
qed

theorem emitted_text_nonempty_trimmed_witness:
  "parse_events [StartTag ''div'' [(''class'', Some ''user'')], Data ''  '',
                 StartTag ''div'' [(''class'', Some ''bot'')], Data '' ok '', EndTag ''p'']
     = Inr [(CHAT, ''ok'')]
   \<and> ''ok'' \<noteq> [] \<and> strip ''ok'' = ''ok''
   \<and> messages (handle_endtag ''div'' \<lparr>messages = [], current_role = Some PROMPTER, buffer = ['' '', ''  '']\<rparr>) = []
   \<and> handle_starttag ''div'' [(''class'', Some ''bot'')] \<lparr>messages = [], current_role = Some PROMPTER, buffer = ['' '', ''  '']\<rparr>
       = Inr \<lparr>messages = [], current_role = Some CHAT, buffer = []\<rparr>"
proof -
  let ?es = "[StartTag ''div'' [(''class'', Some ''user'')], Data ''  '',
              StartTag ''div'' [(''class'', Some ''bot'')], Data '' ok '', EndTag ''p'']"
  let ?s = "\<lparr>messages = [], current_role = Some PROMPTER, buffer = ['' '', ''  '']\<rparr>"
  let ?s' = "\<lparr>messages = [], current_role = Some CHAT, buffer = []\<rparr>"
  have p: "parse_events ?es = Inr [(CHAT, ''ok'')]" by code_simp
  have b: "\<forall>c\<in>set (concat (buffer ?s)). isspace c" by code_simp
  have h: "handle_starttag ''div'' [(''class'', Some ''bot'')] ?s = Inr ?s'" by code_simp
  note t = emitted_text_nonempty_trimmed [of ?es "[(CHAT, ''ok'')]" ?s "''div''" "[(''class'', Some ''bot'')]"]
  from t p have 1: "''ok'' \<noteq> [] \<and> strip ''ok'' = ''ok''" by simp
  from t b have 2: "messages (handle_endtag ''div'' ?s) = []" by simp
  from p 1 2 h show ?thesis by (simp only: simp_thms)
qed

section \<open>Text outside a role\<close>

text \<open>
  C7. A text event met while no role is active leaves the parser unchanged; while a role
  is active the text is appended to the end of the buffer as it is. Events before the
  first role marker (text, end tags, start tags with no role signal) have no effect on the
  returned messages.
\<close>

theorem text_outside_role_discarded:
  "(current_role s = None \<longrightarrow> handle_data d s = s)
   \<and> (current_role s \<noteq> None \<longrightarrow> handle_data d s = s\<lparr>buffer := buffer s @ [d]\<rparr>)
   \<and> ((\<forall>e\<in>set pre. no_signal e) \<longrightarrow> parse_events (pre @ es) = parse_events es)"
proof (intro conjI impI)
  assume "current_role s = None"
  then show "handle_data d s = s" by (simp add: handle_data_def)
next
  assume "current_role s \<noteq> None"
  then show "handle_data d s = s\<lparr>buffer := buffer s @ [d]\<rparr>" by (simp add: handle_data_def)
next
  assume q: "\<forall>e\<in>set pre. no_signal e"
  have "current_role init = None" by (simp add: init_def)
  from feed_no_signal [OF q this] show "parse_events (pre @ es) = parse_events es"
    by (simp add: parse_events_def feed_append)
qed

theorem text_outside_role_discarded_witness:
  "handle_data ''lost'' \<lparr>messages = [], current_role = None, buffer = []\<rparr>
     = \<lparr>messages = [], current_role = None, buffer = []\<rparr>
   \<and> handle_data ''b'' \<lparr>messages = [], current_role = Some CHAT, buffer = [''a'']\<rparr>
     = \<lparr>messages = [], current_role = Some CHAT, buffer = [''a'', ''b'']\<rparr>
   \<and> parse_events ([StartTag ''html'' [], Data ''intro'', EndTag ''div'']
                    @ [StartTag ''div'' [(''class'', Some ''user'')], Data ''Hi'', EndTag ''div''])
     = Inr [(PROMPTER, ''Hi'')]"
proof -
  let ?n = "\<lparr>messages = [], current_role = None, buffer = []\<rparr>"
  let ?a = "\<lparr>messages = [], current_role = Some CHAT, buffer = [''a'']\<rparr>"
  let ?pre = "[StartTag ''html'' [], Data ''intro'', EndTag ''div'']"
  let ?es = "[StartTag ''div'' [(''class'', Some ''user'')], Data ''Hi'', EndTag ''div'']"
  have q: "\<forall>e\<in>set ?pre. no_signal e" by code_simp
  have p: "parse_events ?es = Inr [(PROMPTER, ''Hi'')]" by code_simp
  have 1: "handle_data ''lost'' ?n = ?n"
    using text_outside_role_discarded [of ?n "''lost''" "[]" "[]"] by simp
  have 2: "handle_data ''b'' ?a = ?a\<lparr>buffer := buffer ?a @ [''b'']\<rparr>"
    using text_outside_role_discarded [of ?a "''b''" "[]" "[]"] by simp
  have 3: "parse_events (?pre @ ?es) = Inr [(PROMPTER, ''Hi'')]"
    using text_outside_role_discarded [of ?n "''lost''" ?pre ?es] q p by simp
  from 1 2 3 show ?thesis by simp
qed

section \<open>The end of the event stream\<close>

text \<open>
  C1, as stated, fails. After a role-marked start tag and the text Hi, with no end tag,
  the role is still active and the buffer holds Hi, yet the returned sequence is empty.
\<close>

theorem unclosed_final_message_dropped:
  "feed [StartTag ''div'' [(''class'', Some ''user'')], Data ''Hi''] init
     = Inr \<lparr>messages = [], current_role = Some PROMPTER, buffer = [''Hi'']\<rparr>
   \<and> strip (concat [''Hi'']) = ''Hi''
   \<and> parse_events [StartTag ''div'' [(''class'', Some ''user'')], Data ''Hi''] = Inr []"
  by code_simp

text \<open>
  C1, amended. Nothing is flushed at the end of the event stream. When the run ends with a
  role active and buffered text that is not blank, the returned sequence is exactly the
  messages closed so far, without that text; the pair of the role and the trimmed text is
  emitted only if a closing event follows, such as a div end tag.
\<close>

theorem parse_events_no_final_flush:
  assumes "feed es init = Inr s" and "current_role s = Some r"
    and "strip (concat (buffer s)) \<noteq> []"
  shows "parse_events es = Inr (messages s)
         \<and> parse_events (es @ [EndTag ''div''])
             = Inr (messages s @ [(r, strip (concat (buffer s)))])"
  using assms
  by (simp add: parse_events_def feed_append handle_endtag_def close_message_messages)

theorem parse_events_no_final_flush_witness:
  "feed [StartTag ''div'' [(''class'', Some ''user'')], Data ''Hi''] init
     = Inr \<lparr>messages = [], current_role = Some PROMPTER, buffer = [''Hi'']\<rparr>
   \<and> parse_events [StartTag ''div'' [(''class'', Some ''user'')], Data ''Hi''] = Inr []
   \<and> parse_events ([StartTag ''div'' [(''class'', Some ''user'')], Data ''Hi''] @ [EndTag ''div''])
       = Inr [(PROMPTER, ''Hi'')]"
proof -
  let ?es = "[StartTag ''div'' [(''class'', Some ''user'')], Data ''Hi'']"
  let ?s = "\<lparr>messages = [], current_role = Some PROMPTER, buffer = [''Hi'']\<rparr>"
  have f: "feed ?es init = Inr ?s" by code_simp
  have r: "current_role ?s = Some PROMPTER" by simp
  have t: "strip (concat (buffer ?s)) = ''Hi''" by code_simp
  then have n: "strip (concat (buffer ?s)) \<noteq> []" by simp
  from parse_events_no_final_flush [OF f r n] f show ?thesis
    unfolding t by simp
qed

section \<open>A class attribute without a value\<close>

text \<open>
  C2. For the document \<open><div class>hello</div>\<close> the scanner reports the attribute
  pair (class, None); the class lookup then yields None and \<open>re.search\<close> raises
  \<open>TypeError\<close>, so the extraction raises instead of returning messages.
\<close>

theorem parse_events_valueless_class_raises:
  "get_class [(''class'', None)] = None
   \<and> parse_events [StartTag ''div'' [(''class'', None)], Data ''hello'', EndTag ''div'']
       = Inl TypeError"
  by code_simp

section \<open>The serialized transcript\<close>

text \<open>
  C6. The file that \<open>write_markdown\<close> writes holds, for each message in order, the role
  label, a colon, a line break, the text as it is, and two line breaks. For the document
  with a user-message div holding Hi there and an assistant-message div holding
  Hello! How can I help?, whose events are the two start tags with their class attribute,
  the two texts and the two end tags, the messages are (PROMPTER, Hi there) and
  (CHAT, Hello! How can I help?), and the serialized content is the expected text.
\<close>

theorem write_markdown_format:
  "(write_markdown msgs path w = Inr w' \<longrightarrow>
      files w' path = Some (File (concat (map
        (\<lambda>(r, t). role_label r @ '':'' @ [CHR 0x0A] @ t @ [CHR 0x0A, CHR 0x0A]) msgs))))
   \<and> parse_events
         [StartTag ''div'' [(''class'', Some ''user-message'')], Data ''Hi there'', EndTag ''div'',
          StartTag ''div'' [(''class'', Some ''assistant-message'')],
          Data ''Hello! How can I help?'', EndTag ''div'']
       = Inr [(PROMPTER, ''Hi there''), (CHAT, ''Hello! How can I help?'')]
   \<and> write_all [(PROMPTER, ''Hi there''), (CHAT, ''Hello! How can I help?'')] []
       = ''PROMPTER:\<newline>Hi there\<newline>\<newline>CHAT:\<newline>Hello! How can I help?\<newline>\<newline>''"
proof (intro conjI impI)
  assume "write_markdown msgs path w = Inr w'"
  then have "files w' path = Some (File (write_all msgs []))"
    by (auto simp: write_markdown_def split: if_splits)
  then show "files w' path = Some (File (concat (map
        (\<lambda>(r, t). role_label r @ '':'' @ [CHR 0x0A] @ t @ [CHR 0x0A, CHR 0x0A]) msgs)))"
    by (simp add: write_all_acc)
next
  show "parse_events
         [StartTag ''div'' [(''class'', Some ''user-message'')], Data ''Hi there'', EndTag ''div'',
          StartTag ''div'' [(''class'', Some ''assistant-message'')],
          Data ''Hello! How can I help?'', EndTag ''div'']
       = Inr [(PROMPTER, ''Hi there''), (CHAT, ''Hello! How can I help?'')]"
    by code_simp
next
  show "write_all [(PROMPTER, ''Hi there''), (CHAT, ''Hello! How can I help?'')] []
       = ''PROMPTER:\<newline>Hi there\<newline>\<newline>CHAT:\<newline>Hello! How can I help?\<newline>\<newline>''"
    by code_simp
qed

theorem write_markdown_format_witness:
  "write_markdown [(CHAT, ''a''), (PROMPTER, ''b\<newline>c'')] ''out.md''
       \<lparr>files = Map.empty, writable = (\<lambda>p. True), stdout = []\<rparr>
     = Inr \<lparr>files = [''out.md'' \<mapsto> File ''CHAT:\<newline>a\<newline>\<newline>PROMPTER:\<newline>b\<newline>c\<newline>\<newline>''],
            writable = (\<lambda>p. True), stdout = []\<rparr>
   \<and> files \<lparr>files = [''out.md'' \<mapsto> File ''CHAT:\<newline>a\<newline>\<newline>PROMPTER:\<newline>b\<newline>c\<newline>\<newline>''],
            writable = (\<lambda>p. True), stdout = []\<rparr> ''out.md''
     = Some (File (concat (map
        (\<lambda>(r, t). role_label r @ '':'' @ [CHR 0x0A] @ t @ [CHR 0x0A, CHR 0x0A])
        [(CHAT, ''a''), (PROMPTER, ''b\<newline>c'')])))"
proof -
  let ?w = "\<lparr>files = Map.empty, writable = (\<lambda>p. True), stdout = []\<rparr>"
  let ?w' = "\<lparr>files = [''out.md'' \<mapsto> File ''CHAT:\<newline>a\<newline>\<newline>PROMPTER:\<newline>b\<newline>c\<newline>\<newline>''],
            writable = (\<lambda>p. True), stdout = []\<rparr>"
  have e: "write_markdown [(CHAT, ''a''), (PROMPTER, ''b\<newline>c'')] ''out.md'' ?w = Inr ?w'"
    by (simp add: write_markdown_def)
  from write_markdown_format [of "[(CHAT, ''a''), (PROMPTER, ''b\<newline>c'')]" "''out.md''" ?w ?w'] e
  have "files ?w' ''out.md'' = Some (File (concat (map
        (\<lambda>(r, t). role_label r @ '':'' @ [CHR 0x0A] @ t @ [CHR 0x0A, CHR 0x0A])
        [(CHAT, ''a''), (PROMPTER, ''b\<newline>c'')])))"
    by (simp only: simp_thms)
  with e show ?thesis by (simp only: simp_thms)
qed

section \<open>The command line\<close>

text \<open>
  C8. When the input path is not an existing regular file, \<open>main\<close> ends with
  \<open>SystemExit\<close> and the message Input file not found, whatever the scanner would do; the
  exit status is not zero and the files and the output are untouched. When the input is a
  regular file, the extraction returns messages and the output file is written, \<open>main\<close>
  returns after printing the number of messages and the output path, and the exit status
  is zero.
\<close>

theorem main_exit_behaviour:
  "(\<not> isfile w (input_file a) \<longrightarrow>
      main scan splitext_root a w = (SystemExit ''Input file not found'', w)
      \<and> exit_status (fst (main scan splitext_root a w)) \<noteq> 0)
   \<and> (isfile w (input_file a)
        \<and> convert_html_to_markdown scan (input_file a) w = Inr msgs
        \<and> write_markdown msgs (output_path splitext_root a) w = Inr w' \<longrightarrow>
        main scan splitext_root a w =
          (Returned,
           w'\<lparr>stdout := stdout w @ ''Wrote '' @ str_nat (length msgs) @ '' messages to ''
                          @ output_path splitext_root a @ [CHR 0x0A]\<rparr>)
        \<and> exit_status (fst (main scan splitext_root a w)) = 0)"
proof (intro conjI impI)
  assume "\<not> isfile w (input_file a)"
  then show "main scan splitext_root a w = (SystemExit ''Input file not found'', w)"
    and "exit_status (fst (main scan splitext_root a w)) \<noteq> 0"
    by (simp_all add: main_def)
next
  assume h: "isfile w (input_file a)
        \<and> convert_html_to_markdown scan (input_file a) w = Inr msgs
        \<and> write_markdown msgs (output_path splitext_root a) w = Inr w'"
  then have "stdout w' = stdout w"
    by (auto simp: write_markdown_def split: if_splits)
  with h show m: "main scan splitext_root a w =
          (Returned,
           w'\<lparr>stdout := stdout w @ ''Wrote '' @ str_nat (length msgs) @ '' messages to ''
                          @ output_path splitext_root a @ [CHR 0x0A]\<rparr>)"
    by (simp add: main_def Let_def)
  then show "exit_status (fst (main scan splitext_root a w)) = 0" by simp
qed

theorem main_exit_behaviour_witness:
  "\<not> isfile \<lparr>files = Map.empty, writable = (\<lambda>p. True), stdout = []\<rparr>
          (input_file \<lparr>input_file = ''missing.html'', output_file = None\<rparr>)
   \<and> main (\<lambda>t. []) (\<lambda>p. p) \<lparr>input_file = ''missing.html'', output_file = None\<rparr>
          \<lparr>files = Map.empty, writable = (\<lambda>p. True), stdout = []\<rparr>
       = (SystemExit ''Input file not found'',
          \<lparr>files = Map.empty, writable = (\<lambda>p. True), stdout = []\<rparr>)
   \<and> main (\<lambda>t. [StartTag ''div'' [(''class'', Some ''user'')], Data ''Hi'', EndTag ''div''])
          (\<lambda>p. p) \<lparr>input_file = ''chat.html'', output_file = Some ''out.md''\<rparr>
          \<lparr>files = [''chat.html'' \<mapsto> File ''<div class=user>Hi</div>''],
           writable = (\<lambda>p. True), stdout = []\<rparr>
       = (Returned,
          \<lparr>files = [''chat.html'' \<mapsto> File ''<div class=user>Hi</div>'',
                    ''out.md'' \<mapsto> File ''PROMPTER:\<newline>Hi\<newline>\<newline>''],
           writable = (\<lambda>p. True),
           stdout = ''Wrote 1 messages to out.md\<newline>''\<rparr>)"
proof -
  let ?wm = "\<lparr>files = Map.empty, writable = (\<lambda>p::string. True), stdout = []\<rparr>"
  let ?am = "\<lparr>input_file = ''missing.html'', output_file = None\<rparr>"
  let ?scan = "\<lambda>t::string. [StartTag ''div'' [(''class'', Some ''user'')], Data ''Hi'', EndTag ''div'']"
  let ?a = "\<lparr>input_file = ''chat.html'', output_file = Some ''out.md''\<rparr>"
  let ?w = "\<lparr>files = [''chat.html'' \<mapsto> File ''<div class=user>Hi</div>''],
             writable = (\<lambda>p::string. True), stdout = []\<rparr>"
  let ?w' = "\<lparr>files = [''chat.html'' \<mapsto> File ''<div class=user>Hi</div>'',
                       ''out.md'' \<mapsto> File ''PROMPTER:\<newline>Hi\<newline>\<newline>''],
              writable = (\<lambda>p::string. True), stdout = []\<rparr>"
  have n: "\<not> isfile ?wm (input_file ?am)" by (simp add: isfile_def)
  have i: "isfile ?w (input_file ?a)" by (simp add: isfile_def)
  have p: "parse_events [StartTag ''div'' [(''class'', Some ''user'')], Data ''Hi'', EndTag ''div'']
             = Inr [(PROMPTER, ''Hi'')]"
    by code_simp
  have c: "convert_html_to_markdown ?scan (input_file ?a) ?w = Inr [(PROMPTER, ''Hi'')]"
    by (simp add: convert_html_to_markdown_def read_text_def p)
  have o: "output_path (\<lambda>p. p) ?a = ''out.md''" by (simp add: output_path_def)
  have wr: "write_markdown [(PROMPTER, ''Hi'')] (output_path (\<lambda>p. p) ?a) ?w = Inr ?w'"
    by (simp add: write_markdown_def o)
  have one: "str_nat (length [(PROMPTER, ''Hi'')]) = ''1''" by code_simp
  have 1: "main (\<lambda>t. []) (\<lambda>p. p) ?am ?wm = (SystemExit ''Input file not found'', ?wm)"
    using main_exit_behaviour [of ?wm ?am "\<lambda>t. []" "\<lambda>p. p" "[]" ?wm] n by (simp only: simp_thms)
  have 2: "main ?scan (\<lambda>p. p) ?a ?w =
             (Returned, ?w'\<lparr>stdout := stdout ?w @ ''Wrote '' @ str_nat (length [(PROMPTER, ''Hi'')])
                @ '' messages to '' @ output_path (\<lambda>p. p) ?a @ [CHR 0x0A]\<rparr>)"
    using main_exit_behaviour [of ?w ?a ?scan "\<lambda>p. p" "[(PROMPTER, ''Hi'')]" ?w'] i c wr
    by (simp only: simp_thms)
  have 3: "?w'\<lparr>stdout := stdout ?w @ ''Wrote '' @ str_nat (length [(PROMPTER, ''Hi'')])
                @ '' messages to '' @ output_path (\<lambda>p. p) ?a @ [CHR 0x0A]\<rparr>
           = \<lparr>files = [''chat.html'' \<mapsto> File ''<div class=user>Hi</div>'',
                    ''out.md'' \<mapsto> File ''PROMPTER:\<newline>Hi\<newline>\<newline>''],
           writable = (\<lambda>p. True),
           stdout = ''Wrote 1 messages to out.md\<newline>''\<rparr>"
    unfolding one o by simp
  from n 1 2 show ?thesis unfolding 3 by (simp only: simp_thms)
qed

text \<open>
  C9. When the input file is readable, its extraction yields no message and the output
  path can be opened for writing, \<open>main\<close> creates or truncates the output file, leaves it
  empty, prints a count of 0 and returns with exit status zero.
\<close>

theorem main_empty_transcript:
  assumes "files w (input_file a) = Some (File text)"
    and "parse_events (scan text) = Inr []"
    and "writable w (output_path splitext_root a)"
    and "files w (output_path splitext_root a) \<noteq> Some Directory"
  shows "main scan splitext_root a w =
           (Returned,
            w\<lparr>files := (files w)(output_path splitext_root a \<mapsto> File []),
              stdout := stdout w @ ''Wrote 0 messages to '' @ output_path splitext_root a
                          @ [CHR 0x0A]\<rparr>)
         \<and> exit_status (fst (main scan splitext_root a w)) = 0"
proof -
  have z: "str_nat 0 = ''0''" by code_simp
  have "main scan splitext_root a w =
           (Returned,
            w\<lparr>files := (files w)(output_path splitext_root a \<mapsto> File []),
              stdout := stdout w @ ''Wrote 0 messages to '' @ output_path splitext_root a
                          @ [CHR 0x0A]\<rparr>)"
    using assms
    by (simp add: main_def isfile_def convert_html_to_markdown_def read_text_def
        write_markdown_def Let_def z)
  then show ?thesis by simp
qed

theorem main_empty_transcript_witness:
  "main (\<lambda>t. [StartTag ''p'' [], Data ''hello'', EndTag ''p'']) (\<lambda>p. ''chat'')
        \<lparr>input_file = ''chat.html'', output_file = None\<rparr>
        \<lparr>files = [''chat.html'' \<mapsto> File ''<p>hello</p>''],
         writable = (\<lambda>p. True), stdout = []\<rparr>
     = (Returned,
        \<lparr>files = [''chat.html'' \<mapsto> File ''<p>hello</p>'', ''chat.md'' \<mapsto> File []],
         writable = (\<lambda>p. True), stdout = ''Wrote 0 messages to chat.md\<newline>''\<rparr>)"
proof -
  let ?scan = "\<lambda>t::string. [StartTag ''p'' [], Data ''hello'', EndTag ''p'']"
  let ?a = "\<lparr>input_file = ''chat.html'', output_file = None\<rparr>"
  let ?w = "\<lparr>files = [''chat.html'' \<mapsto> File ''<p>hello</p>''],
             writable = (\<lambda>p::string. True), stdout = []\<rparr>"
  have o: "output_path (\<lambda>p. ''chat'') ?a = ''chat.md''" by (simp add: output_path_def)
  have f: "files ?w (input_file ?a) = Some (File ''<p>hello</p>'')" by simp
  have p: "parse_events (?scan ''<p>hello</p>'') = Inr []" by code_simp
  have wr: "writable ?w (output_path (\<lambda>p. ''chat'') ?a)" by simp
  have d: "files ?w (output_path (\<lambda>p. ''chat'') ?a) \<noteq> Some Directory" by (simp add: o)
  from main_empty_transcript [OF f p wr d] show ?thesis
    unfolding o by simp
qed

end
